theory Spec2Isabelle
  imports Complex_Main "HOL-Library.Char_ord" "HOL-Library.List_Lexorder" "HOL-Library.Multiset"
begin

section \<open>Data model\<close>

text \<open>
  The C++ containers of the plagiarism checker:
  \<^item> \<^verbatim>\<open>std::vector<T>\<close> is a list;
  \<^item> \<^verbatim>\<open>std::map<std::string, V>\<close> is a list of entries in strictly ascending key order
    (the order in which a range-for visits the map), keys compared as byte strings;
  \<^item> \<^verbatim>\<open>int\<close> is an integer; \<^verbatim>\<open>static_cast<int>(v.size())\<close> is the length of the list
    (container sizes are taken to fit into \<^verbatim>\<open>int\<close>);
  \<^item> in FeatureExtractor and SimilarityChecker a \<^verbatim>\<open>double\<close> is the real number it denotes and
    the operations are written without their rounding. The theorems about these classes
    state only what holds for the rounded operations as well: a result that is exactly 0
    or 1, the equality of two values computed by the same operations on the same operands
    in the same order, the commuted product, and the keys of the maps. The value of the
    quotient in the last branch of cosineSimilarity is not among them;
  \<^item> in ReportWriter, which prints whatever \<^verbatim>\<open>double\<close> it is given, a \<^verbatim>\<open>double\<close> is a finite
    number, a negative zero, an infinity or a NaN, and the product is rounded to binary64.
\<close>

type_synonym 'v std_map = "(string \<times> 'v) list"

definition wf_map :: "'v std_map \<Rightarrow> bool" where
  "wf_map m = sorted_wrt (<) (map fst m)"

text \<open>\<^verbatim>\<open>m[k] = v\<close>: the entry of key k is overwritten, or inserted at its place.\<close>

fun map_put :: "string \<Rightarrow> 'v \<Rightarrow> 'v std_map \<Rightarrow> 'v std_map" where
  "map_put k v [] = [(k, v)]"
| "map_put k v ((k', v') # m) =
     (if k = k' then (k, v) # m
      else if k < k' then (k, v) # (k', v') # m
      else (k', v') # map_put k v m)"

text \<open>\<^verbatim>\<open>m.find(k)\<close>: the value at k, or None for \<^verbatim>\<open>m.end()\<close>.\<close>

definition map_find :: "'v std_map \<Rightarrow> string \<Rightarrow> 'v option" where
  "map_find m k = map_of m k"

text \<open>The exception \<^verbatim>\<open>std::out_of_range\<close> that \<^verbatim>\<open>m.at(k)\<close> throws on a missing key.\<close>

datatype error = OutOfRange

definition map_at :: "'v std_map \<Rightarrow> string \<Rightarrow> error + 'v" where
  "map_at m k = (case map_of m k of None \<Rightarrow> Inl OutOfRange | Some v \<Rightarrow> Inr v)"

section \<open>SimilarityChecker\<close>

record SimilarityChecker =
  tfidfVectors :: "real std_map list"
  documentNames :: "string list"

text \<open>The loop of dotProduct over the smaller map, probing the larger one.\<close>

fun dotProduct_loop :: "real std_map \<Rightarrow> real std_map \<Rightarrow> real \<Rightarrow> real" where
  "dotProduct_loop [] larger result = result"
| "dotProduct_loop ((term, value1) # rest) larger result =
     (case map_find larger term of
        Some value2 \<Rightarrow> dotProduct_loop rest larger (result + value1 * value2)
      | None \<Rightarrow> dotProduct_loop rest larger result)"

definition dotProduct :: "real std_map \<Rightarrow> real std_map \<Rightarrow> real" where
  "dotProduct vec1 vec2 =
     (let smaller = (if length vec1 < length vec2 then vec1 else vec2);
          larger = (if length vec1 < length vec2 then vec2 else vec1)
      in dotProduct_loop smaller larger 0)"

fun magnitude_loop :: "real std_map \<Rightarrow> real \<Rightarrow> real" where
  "magnitude_loop [] sum_sq = sum_sq"
| "magnitude_loop ((term, value) # rest) sum_sq = magnitude_loop rest (sum_sq + value * value)"

definition magnitude :: "real std_map \<Rightarrow> real" where
  "magnitude vec = sqrt (magnitude_loop vec 0)"

definition cosineSimilarity :: "SimilarityChecker \<Rightarrow> int \<Rightarrow> int \<Rightarrow> real" where
  "cosineSimilarity c doc1Index doc2Index =
     (if doc1Index < 0 \<or> doc1Index \<ge> int (length (tfidfVectors c)) \<or>
         doc2Index < 0 \<or> doc2Index \<ge> int (length (tfidfVectors c))
      then 0
      else if doc1Index = doc2Index then 1
      else
        let vec1 = tfidfVectors c ! nat doc1Index;
            vec2 = tfidfVectors c ! nat doc2Index;
            dot = dotProduct vec1 vec2;
            mag1 = magnitude vec1;
            mag2 = magnitude vec2
        in if mag1 = 0 \<or> mag2 = 0 then 0 else dot / (mag1 * mag2))"

text \<open>\<^verbatim>\<open>std::to_string(int)\<close>: the decimal digits, after a minus sign for a negative number.\<close>

definition digit_char :: "nat \<Rightarrow> char" where
  "digit_char d = char_of (48 + d)"

fun digits_of :: "nat \<Rightarrow> string" where
  "digits_of n = (if n < 10 then [digit_char n] else digits_of (n div 10) @ [digit_char (n mod 10)])"

declare digits_of.simps [simp del]

definition to_string :: "int \<Rightarrow> string" where
  "to_string i = (if i < 0 then CHR ''-'' # digits_of (nat (- i)) else digits_of (nat i))"

text \<open>The display name of a document in compareAll, with the fallback for a missing name.\<close>

definition documentName :: "SimilarityChecker \<Rightarrow> int \<Rightarrow> string" where
  "documentName c i =
     (if i < int (length (documentNames c)) then documentNames c ! nat i
      else ''Document'' @ to_string i)"

type_synonym result = "string \<times> string \<times> real"

function compareAll_inner ::
  "SimilarityChecker \<Rightarrow> int \<Rightarrow> int \<Rightarrow> int \<Rightarrow> result list \<Rightarrow> result list" where
  "compareAll_inner c numDocs i j results =
     (if j < numDocs then
        let similarity = cosineSimilarity c i j;
            name1 = documentName c i;
            name2 = documentName c j
        in compareAll_inner c numDocs i (j + 1) (results @ [(name1, name2, similarity)])
      else results)"
  by pat_completeness auto
termination
  by (relation "measure (\<lambda>(c, numDocs, i, j, results). nat (numDocs - j))") auto

declare compareAll_inner.simps [simp del]

function compareAll_outer ::
  "SimilarityChecker \<Rightarrow> int \<Rightarrow> int \<Rightarrow> result list \<Rightarrow> result list" where
  "compareAll_outer c numDocs i results =
     (if i < numDocs then
        compareAll_outer c numDocs (i + 1) (compareAll_inner c numDocs i (i + 1) results)
      else results)"
  by pat_completeness auto
termination
  by (relation "measure (\<lambda>(c, numDocs, i, results). nat (numDocs - i))") auto

declare compareAll_outer.simps [simp del]

definition compareAll :: "SimilarityChecker \<Rightarrow> result list" where
  "compareAll c = compareAll_outer c (int (length (tfidfVectors c))) 0 []"

text \<open>
  The pairs that the specification asks compareAll to enumerate: every (i, j) with
  i < j < N, ordered by i and then by j.
\<close>

definition index_pairs :: "nat \<Rightarrow> (nat \<times> nat) list" where
  "index_pairs N = filter (\<lambda>(i, j). i < j) (List.product [0..<N] [0..<N])"

definition pair_before :: "nat \<times> nat \<Rightarrow> nat \<times> nat \<Rightarrow> bool" where
  "pair_before p q = (fst p < fst q \<or> (fst p = fst q \<and> snd p < snd q))"

definition pair_result :: "SimilarityChecker \<Rightarrow> nat \<times> nat \<Rightarrow> result" where
  "pair_result c p =
     (documentName c (int (fst p)), documentName c (int (snd p)),
      cosineSimilarity c (int (fst p)) (int (snd p)))"

section \<open>FeatureExtractor\<close>

record FeatureExtractor =
  documents :: "string list list"
  vocabulary :: "string list"
  fe_tfidfVectors :: "real std_map list"

text \<open>\<^verbatim>\<open>std::set<std::string>::insert\<close>: the elements are kept in ascending order, once each.\<close>

fun set_insert :: "string \<Rightarrow> string list \<Rightarrow> string list" where
  "set_insert w [] = [w]"
| "set_insert w (x # xs) =
     (if w = x then x # xs
      else if w < x then w # x # xs
      else x # set_insert w xs)"

fun buildVocabulary_words :: "string list \<Rightarrow> string list \<Rightarrow> string list" where
  "buildVocabulary_words [] vocabSet = vocabSet"
| "buildVocabulary_words (word # doc) vocabSet =
     buildVocabulary_words doc (set_insert word vocabSet)"

fun buildVocabulary_docs :: "string list list \<Rightarrow> string list \<Rightarrow> string list" where
  "buildVocabulary_docs [] vocabSet = vocabSet"
| "buildVocabulary_docs (doc # docs) vocabSet =
     buildVocabulary_docs docs (buildVocabulary_words doc vocabSet)"

definition buildVocabulary :: "FeatureExtractor \<Rightarrow> FeatureExtractor" where
  "buildVocabulary fe = fe\<lparr>vocabulary := buildVocabulary_docs (documents fe) []\<rparr>"

text \<open>The constructor stores the documents and builds the vocabulary.\<close>

definition FeatureExtractor_new :: "string list list \<Rightarrow> FeatureExtractor" where
  "FeatureExtractor_new docs =
     buildVocabulary \<lparr>documents = docs, vocabulary = [], fe_tfidfVectors = []\<rparr>"

text \<open>\<^verbatim>\<open>termCount[term]++\<close>: a missing entry is created with 0 and then incremented.\<close>

fun count_terms :: "string list \<Rightarrow> int std_map \<Rightarrow> int std_map" where
  "count_terms [] termCount = termCount"
| "count_terms (term # rest) termCount =
     count_terms rest
       (map_put term ((case map_find termCount term of None \<Rightarrow> 0 | Some n \<Rightarrow> n) + 1) termCount)"

fun tf_of_counts :: "int std_map \<Rightarrow> real \<Rightarrow> real std_map \<Rightarrow> real std_map" where
  "tf_of_counts [] totalTerms tf = tf"
| "tf_of_counts ((term, n) # rest) totalTerms tf =
     tf_of_counts rest totalTerms (map_put term (real_of_int n / totalTerms) tf)"

definition computeTF :: "string list \<Rightarrow> real std_map" where
  "computeTF document =
     (if document = [] then []
      else tf_of_counts (count_terms document []) (real (length document)) [])"

fun count_docs :: "string \<Rightarrow> string list list \<Rightarrow> int \<Rightarrow> int" where
  "count_docs term [] docCount = docCount"
| "count_docs term (doc # docs) docCount =
     count_docs term docs (if term \<in> set doc then docCount + 1 else docCount)"

fun computeIDF_loop ::
  "string list \<Rightarrow> string list list \<Rightarrow> real \<Rightarrow> real std_map \<Rightarrow> real std_map" where
  "computeIDF_loop [] docs totalDocs idf = idf"
| "computeIDF_loop (term # rest) docs totalDocs idf =
     (let docCount = count_docs term docs 0
      in computeIDF_loop rest docs totalDocs
           (map_put term
              (if docCount > 0 then log 10 (totalDocs / real_of_int docCount) else 0) idf))"

definition computeIDF :: "FeatureExtractor \<Rightarrow> real std_map" where
  "computeIDF fe =
     (if documents fe = [] then []
      else computeIDF_loop (vocabulary fe) (documents fe) (real (length (documents fe))) [])"

text \<open>
  The inner loop of computeTFIDF over the vocabulary. \<^verbatim>\<open>idf.at(term)\<close> throws when the
  term has no IDF entry, which ends the whole computation.
\<close>

fun tfidf_terms ::
  "string list \<Rightarrow> real std_map \<Rightarrow> real std_map \<Rightarrow> real std_map \<Rightarrow> error + real std_map" where
  "tfidf_terms [] tf idf tfidf = Inr tfidf"
| "tfidf_terms (term # rest) tf idf tfidf =
     (let tfValue = (case map_find tf term of Some v \<Rightarrow> v | None \<Rightarrow> 0)
      in case map_at idf term of
           Inl e \<Rightarrow> Inl e
         | Inr idfValue \<Rightarrow> tfidf_terms rest tf idf (map_put term (tfValue * idfValue) tfidf))"

fun computeTFIDF_docs ::
  "string list list \<Rightarrow> string list \<Rightarrow> real std_map \<Rightarrow> real std_map list
   \<Rightarrow> error + real std_map list" where
  "computeTFIDF_docs [] vocab idf vectors = Inr vectors"
| "computeTFIDF_docs (doc # docs) vocab idf vectors =
     (case tfidf_terms vocab (computeTF doc) idf [] of
        Inl e \<Rightarrow> Inl e
      | Inr tfidf \<Rightarrow> computeTFIDF_docs docs vocab idf (vectors @ [tfidf]))"

definition computeTFIDF :: "FeatureExtractor \<Rightarrow> error + FeatureExtractor" where
  "computeTFIDF fe =
     (if documents fe = [] then Inr (fe\<lparr>fe_tfidfVectors := []\<rparr>)
      else case computeTFIDF_docs (documents fe) (vocabulary fe) (computeIDF fe) [] of
             Inl e \<Rightarrow> Inl e
           | Inr vectors \<Rightarrow> Inr (fe\<lparr>fe_tfidfVectors := vectors\<rparr>))"

definition getAllTFIDFVectors :: "FeatureExtractor \<Rightarrow> real std_map list" where
  "getAllTFIDFVectors fe = fe_tfidfVectors fe"

text \<open>
  The engine as the main program builds it: the extractor on the documents, computeTFIDF,
  and a SimilarityChecker on the vectors and the display names.
\<close>

definition engine :: "string list list \<Rightarrow> string list \<Rightarrow> error + SimilarityChecker" where
  "engine docs names =
     (case computeTFIDF (FeatureExtractor_new docs) of
        Inl e \<Rightarrow> Inl e
      | Inr extractor \<Rightarrow>
          Inr \<lparr>tfidfVectors = getAllTFIDFVectors extractor, documentNames = names\<rparr>)"

text \<open>
  The formulas of the specification: docCount is the number of documents that contain the
  term at least once, TF is the count of the term over the length of the document, IDF is
  the decimal logarithm of the number of documents over docCount, and 0 when docCount is 0.
\<close>

definition docCount_spec :: "string list list \<Rightarrow> string \<Rightarrow> nat" where
  "docCount_spec docs t = length (filter (\<lambda>doc. t \<in> set doc) docs)"

definition tf_spec :: "string list \<Rightarrow> string \<Rightarrow> real" where
  "tf_spec doc t = real (count_list doc t) / real (length doc)"

definition idf_spec :: "string list list \<Rightarrow> string \<Rightarrow> real" where
  "idf_spec docs t =
     (if docCount_spec docs t = 0 then 0
      else log 10 (real (length docs) / real (docCount_spec docs t)))"

text \<open>
  The TF-IDF vector of a document in the specification's words: for every term of the
  vocabulary, in its order, the weight TF * IDF.
\<close>

definition tfidf_spec :: "string list list \<Rightarrow> string list \<Rightarrow> real std_map" where
  "tfidf_spec docs doc =
     map (\<lambda>t. (t, tf_spec doc t * idf_spec docs t)) (vocabulary (FeatureExtractor_new docs))"

section \<open>ReportWriter\<close>

text \<open>
  The values of a \<^verbatim>\<open>double\<close>: \<open>Finite x\<close> is the finite double of value x
  (\<open>Finite 0\<close> the positive zero), \<open>NegZero\<close> the negative zero, and a NaN carries its
  sign bit.
\<close>

datatype double = Finite real | NegZero | PosInf | NegInf | NaN bool

fun is_finite :: "double \<Rightarrow> bool" where
  "is_finite (Finite x) = True"
| "is_finite NegZero = True"
| "is_finite d = False"

fun double_value :: "double \<Rightarrow> real" where
  "double_value (Finite x) = x"
| "double_value d = 0"

fun double_negative :: "double \<Rightarrow> bool" where
  "double_negative (Finite x) = (x < 0)"
| "double_negative NegZero = True"
| "double_negative PosInf = False"
| "double_negative NegInf = True"
| "double_negative (NaN s) = s"

text \<open>Rounding to the nearest integer, a tie to the even neighbour.\<close>

definition round_half_even :: "real \<Rightarrow> int" where
  "round_half_even r =
     (let f = \<lfloor>r\<rfloor>; d = r - of_int f
      in if d < 1 / 2 then f else if d > 1 / 2 then f + 1 else if even f then f else f + 1)"

text \<open>
  Rounding of an exact result other than 0 to binary64, to nearest with ties to even: the
  unit in the last place of x is 2 to the power e - 52, where e is the binary exponent of
  x and at least -1022 (below that the subnormal numbers share one unit); a rounded result
  of magnitude 2 to the power 1024 or more overflows to an infinity, and a result that
  rounds to zero keeps the sign.
\<close>

definition double_ulp :: "real \<Rightarrow> real" where
  "double_ulp x = 2 powr (real_of_int (max \<lfloor>log 2 \<bar>x\<bar>\<rfloor> (- 1022)) - 52)"

definition round_double :: "real \<Rightarrow> double" where
  "round_double x =
     (let y = real_of_int (round_half_even (x / double_ulp x)) * double_ulp x
      in if 2 powr 1024 \<le> \<bar>y\<bar> then (if 0 < x then PosInf else NegInf)
         else if y = 0 \<and> x < 0 then NegZero
         else Finite y)"

text \<open>
  The product of two doubles. A NaN operand is returned; the sign of any other result is
  negative when the signs of the operands differ; an infinity times a zero is the default
  NaN, which has the sign bit set on x86-64; an exact product of 0 is a zero.
\<close>

fun double_mul :: "double \<Rightarrow> double \<Rightarrow> double" where
  "double_mul (NaN s) y = NaN s"
| "double_mul x (NaN s) = NaN s"
| "double_mul x y =
     (let negative = (double_negative x \<noteq> double_negative y)
      in if is_finite x \<and> is_finite y then
           (if double_value x * double_value y = 0
            then (if negative then NegZero else Finite 0)
            else round_double (double_value x * double_value y))
         else if (is_finite x \<and> double_value x = 0) \<or> (is_finite y \<and> double_value y = 0)
         then NaN True
         else if negative then NegInf else PosInf)"

text \<open>The comparison \<^verbatim>\<open>x > y\<close>, which is false when an operand is a NaN.\<close>

fun double_greater :: "double \<Rightarrow> double \<Rightarrow> bool" where
  "double_greater (NaN s) y = False"
| "double_greater x (NaN s) = False"
| "double_greater PosInf y = (y \<noteq> PosInf)"
| "double_greater x NegInf = (x \<noteq> NegInf)"
| "double_greater NegInf y = False"
| "double_greater x PosInf = False"
| "double_greater x y = (double_value y < double_value x)"

record ReportWriter =
  outputPath :: string
  threshold :: double

text \<open>
  The stream manipulators \<^verbatim>\<open>std::fixed << std::setprecision(2)\<close>, as libstdc++ prints with
  the C library's conversion: a finite value is rounded to the nearest hundredth (a tie of
  the exact value goes to the even neighbour) and printed with its integer digits, a point
  and two decimals, a negative value and the negative zero with a minus sign; an infinity
  and a NaN are printed by name, with a minus sign when the sign bit is set.
\<close>

fun fixed2 :: "double \<Rightarrow> string" where
  "fixed2 (Finite x) =
     (let h = nat (round_half_even (\<bar>x\<bar> * 100))
      in (if x < 0 then ''-'' else []) @ digits_of (h div 100) @ ''.'' @
         [digit_char (h div 10 mod 10), digit_char (h mod 10)])"
| "fixed2 NegZero = ''-0.00''"
| "fixed2 PosInf = ''inf''"
| "fixed2 NegInf = ''-inf''"
| "fixed2 (NaN s) = (if s then ''-nan'' else ''nan'')"

text \<open>A result as writeCSV receives it: the two names and the similarity, any double.\<close>

type_synonym report_result = "string \<times> string \<times> double"

fun writeCSV_rows :: "double \<Rightarrow> report_result list \<Rightarrow> string \<Rightarrow> string" where
  "writeCSV_rows thresh [] file = file"
| "writeCSV_rows thresh ((student1, student2, similarity) # rest) file =
     (let pair = student1 @ '' vs '' @ student2;
          percentage = double_mul similarity (Finite 100);
          plagiarized = (if double_greater similarity thresh then ''Yes'' else ''No'')
      in writeCSV_rows thresh rest
           (file @ [CHR 0x22] @ pair @ [CHR 0x22] @ '','' @ fixed2 percentage @ ''%,'' @
            plagiarized @ [CHR 0x0A]))"

text \<open>
  writeCSV returns the contents of the file it wrote, or None when the file could not be
  opened (the early return after the error message). The console messages are not modelled.
\<close>

definition writeCSV :: "ReportWriter \<Rightarrow> bool \<Rightarrow> report_result list \<Rightarrow> string option" where
  "writeCSV w is_open results =
     (if \<not> is_open then None
      else Some (writeCSV_rows (threshold w) results
                   (''Student Pair,Similarity Percentage,Plagiarized'' @ [CHR 0x0A])))"

text \<open>
  The row format of the persisted report, in the specification's words: the quoted pair,
  the percentage with a percent sign, the flag, and a line feed. A percentage has exactly
  two decimal places when it ends with a point and two digits, after at least one digit
  and an optional minus sign.
\<close>

definition is_digit :: "char \<Rightarrow> bool" where
  "is_digit ch = (CHR ''0'' \<le> ch \<and> ch \<le> CHR ''9'')"

definition two_decimal_places :: "string \<Rightarrow> bool" where
  "two_decimal_places p =
     (case rev p of
        d2 # d1 # dot # whole \<Rightarrow>
          is_digit d2 \<and> is_digit d1 \<and> dot = CHR ''.'' \<and>
          (let ds = (case rev whole of [] \<Rightarrow> [] | ch # cs \<Rightarrow> if ch = CHR ''-'' then cs else ch # cs)
           in ds \<noteq> [] \<and> list_all is_digit ds)
      | _ \<Rightarrow> False)"

definition csv_row :: "string \<Rightarrow> string \<Rightarrow> string \<Rightarrow> string \<Rightarrow> string" where
  "csv_row nameA nameB percentage flag =
     [CHR 0x22] @ nameA @ '' vs '' @ nameB @ [CHR 0x22] @ '','' @ percentage @ ''%,'' @ flag @
     [CHR 0x0A]"

section \<open>Index checks of cosineSimilarity\<close>

text \<open>
  Claim C2. When at least one of the two indices is negative or at least the number of
  stored vectors, cosineSimilarity returns 0. The function has no failing branch: the
  vectors are read only after both indices have passed the range check.
\<close>

theorem cosineSimilarity_out_of_range:
  "doc1Index < 0 \<or> doc1Index \<ge> int (length (tfidfVectors c)) \<or>
   doc2Index < 0 \<or> doc2Index \<ge> int (length (tfidfVectors c))
   \<Longrightarrow> cosineSimilarity c doc1Index doc2Index = 0"
  by (simp add: cosineSimilarity_def)

theorem cosineSimilarity_out_of_range_witness:
  "cosineSimilarity \<lparr>tfidfVectors = [[(''a'', 1)], [(''b'', 2)]], documentNames = []\<rparr> 1 2 = 0
   \<and> cosineSimilarity \<lparr>tfidfVectors = [[(''a'', 1)], [(''b'', 2)]], documentNames = []\<rparr> (- 1) 0 = 0"
  using cosineSimilarity_out_of_range
          [of 1 "\<lparr>tfidfVectors = [[(''a'', 1)], [(''b'', 2)]], documentNames = []\<rparr>" 2]
        cosineSimilarity_out_of_range
          [of "- 1" "\<lparr>tfidfVectors = [[(''a'', 1)], [(''b'', 2)]], documentNames = []\<rparr>" 0]
  by simp

text \<open>
  Claim C3. For every valid index i, cosineSimilarity(i, i) is 1, whatever the stored
  vector is: the branch is taken before any vector is read, so a vector of magnitude 0
  (such as the empty map) gives 1 as well.
\<close>

theorem cosineSimilarity_self:
  "0 \<le> i \<Longrightarrow> i < int (length (tfidfVectors c)) \<Longrightarrow> cosineSimilarity c i i = 1"
  by (simp add: cosineSimilarity_def)

theorem cosineSimilarity_self_witness:
  "magnitude (tfidfVectors \<lparr>tfidfVectors = [[], [(''b'', 2)]], documentNames = []\<rparr> ! nat 0) = 0
   \<and> cosineSimilarity \<lparr>tfidfVectors = [[], [(''b'', 2)]], documentNames = []\<rparr> 0 0 = 1"
  using cosineSimilarity_self [of 0 "\<lparr>tfidfVectors = [[], [(''b'', 2)]], documentNames = []\<rparr>"]
  by (simp add: magnitude_def)

section \<open>compareAll\<close>

lemma compareAll_inner_eq:
  "compareAll_inner c (int N) (int a) (int b) acc =
     acc @ map (\<lambda>b'. pair_result c (a, b')) [b..<N]"
proof (induction "N - b" arbitrary: b acc)
  case 0
  then show ?case by (simp add: compareAll_inner.simps)
next
  case (Suc n)
  then have lt: "b < N" and n: "n = N - Suc b" by simp_all
  have step: "int b + 1 = int (Suc b)" by simp
  show ?case
    using lt Suc.hyps(1) [OF n]
    by (simp add: compareAll_inner.simps [of c "int N" "int a" "int b"] step
        upt_conv_Cons pair_result_def del: of_nat_Suc)
qed

lemma compareAll_outer_eq:
  "compareAll_outer c (int N) (int a) acc =
     acc @ concat (map (\<lambda>a'. map (\<lambda>b'. pair_result c (a', b')) [Suc a'..<N]) [a..<N])"
proof (induction "N - a" arbitrary: a acc)
  case 0
  then show ?case by (simp add: compareAll_outer.simps)
next
  case (Suc n)
  then have lt: "a < N" and n: "n = N - Suc a" by simp_all
  have step: "int a + 1 = int (Suc a)" by simp
  show ?case
    using lt Suc.hyps(1) [OF n]
    by (simp add: compareAll_outer.simps [of c "int N" "int a"] step
        compareAll_inner_eq upt_conv_Cons del: of_nat_Suc)
qed

lemma filter_less_upt: "filter (\<lambda>j. i < j) [0..<N] = [Suc i..<N]"
  by (induction N) auto

lemma product_concat: "List.product xs ys = concat (map (\<lambda>x. map (Pair x) ys) xs)"
  by (induction xs) auto

lemma index_pairs_concat:
  "index_pairs N = concat (map (\<lambda>i. map (Pair i) [Suc i..<N]) [0..<N])"
  by (simp add: index_pairs_def product_concat filter_concat filter_map comp_def
      filter_less_upt)

lemma compareAll_eq_map:
  "compareAll c = map (pair_result c) (index_pairs (length (tfidfVectors c)))"
  using compareAll_outer_eq [of c "length (tfidfVectors c)" 0 "[]"]
  by (simp add: compareAll_def index_pairs_concat map_concat comp_def)

lemma twice_sum_below: "2 * (\<Sum>i<N. i) = N * (N - 1)" for N :: nat
proof (induction N)
  case 0
  show ?case by simp
next
  case (Suc N)
  then show ?case by (cases N) (simp_all add: algebra_simps)
qed

lemma length_index_pairs: "length (index_pairs N) = N * (N - 1) div 2"
proof -
  have "length (index_pairs N) = (\<Sum>i<N. N - Suc i)"
    by (simp add: index_pairs_concat length_concat comp_def interv_sum_list_conv_sum_set_nat
        atLeast_upt [symmetric] lessThan_atLeast0)
  also have "\<dots> = (\<Sum>i<N. i)"
    by (rule sum.nat_diff_reindex)
  finally show ?thesis
    using twice_sum_below [of N] by simp
qed

lemma sorted_product:
  "sorted_wrt (<) xs \<Longrightarrow> sorted_wrt (<) ys \<Longrightarrow> sorted_wrt pair_before (List.product xs ys)"
  by (induction xs) (auto simp: sorted_wrt_append sorted_wrt_map pair_before_def)

lemma sorted_index_pairs: "sorted_wrt pair_before (index_pairs N)"
  unfolding index_pairs_def by (intro sorted_wrt_filter sorted_product) simp_all

lemma set_index_pairs: "set (index_pairs N) = {(i, j). i < j \<and> j < N}"
  by (auto simp: index_pairs_def)

lemma distinct_index_pairs: "distinct (index_pairs N)"
  by (simp add: index_pairs_def distinct_product)

text \<open>
  Claim C5. For N stored vectors compareAll returns N * (N - 1) / 2 results: the result of
  the pair (i, j) for every i < j < N, each pair once, never a pair (i, i) and never both
  (i, j) and (j, i), ordered by i and then by j. With at most one vector the result is empty.
\<close>

theorem compareAll_pairs:
  "compareAll c = map (pair_result c) (index_pairs (length (tfidfVectors c)))
   \<and> length (compareAll c) = length (tfidfVectors c) * (length (tfidfVectors c) - 1) div 2
   \<and> set (index_pairs (length (tfidfVectors c))) =
       {(i, j). i < j \<and> j < length (tfidfVectors c)}
   \<and> distinct (index_pairs (length (tfidfVectors c)))
   \<and> sorted_wrt pair_before (index_pairs (length (tfidfVectors c)))
   \<and> (length (tfidfVectors c) \<le> 1 \<longrightarrow> compareAll c = [])"
proof -
  let ?N = "length (tfidfVectors c)"
  have len: "length (compareAll c) = ?N * (?N - 1) div 2"
    by (simp add: compareAll_eq_map length_index_pairs)
  have "compareAll c = []" if "?N \<le> 1"
  proof -
    from that have "?N = 0 \<or> ?N = 1" by arith
    then have "length (compareAll c) = 0" using len by auto
    then show ?thesis by simp
  qed
  then show ?thesis
    using len compareAll_eq_map set_index_pairs distinct_index_pairs sorted_index_pairs
    by blast
qed

theorem compareAll_pairs_witness:
  "length (tfidfVectors \<lparr>tfidfVectors = [[(''a'', 1)]], documentNames = [''x'']\<rparr>) \<le> 1
   \<and> compareAll \<lparr>tfidfVectors = [[(''a'', 1)]], documentNames = [''x'']\<rparr> = []"
proof -
  have small: "length (tfidfVectors \<lparr>tfidfVectors = [[(''a'', 1)]], documentNames = [''x'']\<rparr>) \<le> 1"
    by simp
  with compareAll_pairs [of "\<lparr>tfidfVectors = [[(''a'', 1)]], documentNames = [''x'']\<rparr>"]
  show ?thesis by blast
qed

section \<open>Dot product and magnitude as sums over the keys\<close>

lemma wf_map_distinct: "wf_map m \<Longrightarrow> distinct (map fst m)"
  by (simp add: wf_map_def strict_sorted_iff)

lemma sum_list_entries:
  "distinct (map fst m) \<Longrightarrow>
   sum_list (map (\<lambda>(k, x). f k x) m) = (\<Sum>k\<in>set (map fst m). f k (the (map_of m k)))"
proof (induction m)
  case Nil
  show ?case by simp
next
  case (Cons e m)
  obtain k x where e: "e = (k, x)" by (cases e)
  from Cons.prems e have fresh: "k \<notin> set (map fst m)" and dist: "distinct (map fst m)"
    by simp_all
  have same: "(\<Sum>k'\<in>set (map fst m). f k' (the (map_of (e # m) k'))) =
              (\<Sum>k'\<in>set (map fst m). f k' (the (map_of m k')))"
    using fresh e by (intro sum.cong) auto
  show ?case
    using fresh Cons.IH [OF dist] same e by simp
qed

lemma magnitude_loop_sum_list:
  "magnitude_loop v s = s + sum_list (map (\<lambda>(k, x). x * x) v)"
  by (induction v s rule: magnitude_loop.induct) simp_all

lemma dotProduct_loop_sum_list:
  "dotProduct_loop sm lg r =
     r + sum_list (map (\<lambda>(k, x). case map_of lg k of Some y \<Rightarrow> x * y | None \<Rightarrow> 0) sm)"
  by (induction sm lg r rule: dotProduct_loop.induct)
     (simp_all add: map_find_def split: option.splits)

lemma dotProduct_loop_sum:
  assumes "distinct (map fst sm)"
  shows "dotProduct_loop sm lg 0 =
     (\<Sum>k\<in>set (map fst sm) \<inter> set (map fst lg). the (map_of sm k) * the (map_of lg k))"
proof -
  have "dotProduct_loop sm lg 0 =
        (\<Sum>k\<in>set (map fst sm).
           case map_of lg k of Some y \<Rightarrow> the (map_of sm k) * y | None \<Rightarrow> 0)"
    using sum_list_entries [OF assms,
        of "\<lambda>k x. case map_of lg k of Some y \<Rightarrow> x * y | None \<Rightarrow> 0"]
    by (simp add: dotProduct_loop_sum_list)
  also have "\<dots> = (\<Sum>k\<in>set (map fst sm).
           if k \<in> set (map fst lg) then the (map_of sm k) * the (map_of lg k) else 0)"
  proof (intro sum.cong refl)
    fix k
    show "(case map_of lg k of Some y \<Rightarrow> the (map_of sm k) * y | None \<Rightarrow> 0) =
          (if k \<in> set (map fst lg) then the (map_of sm k) * the (map_of lg k) else 0)"
    proof (cases "map_of lg k")
      case None
      moreover from None have "k \<notin> fst ` set lg"
        by (simp add: map_of_eq_None_iff)
      ultimately show ?thesis by simp
    next
      case (Some y)
      then have "(k, y) \<in> set lg" by (rule map_of_SomeD)
      then have "k \<in> fst ` set lg" by force
      with Some show ?thesis by simp
    qed
  qed
  also have "\<dots> =
     (\<Sum>k\<in>set (map fst sm) \<inter> set (map fst lg). the (map_of sm k) * the (map_of lg k))"
    by (simp add: sum.inter_restrict)
  finally show ?thesis .
qed

lemma dotProduct_loop_commute:
  "distinct (map fst a) \<Longrightarrow> distinct (map fst b) \<Longrightarrow>
   dotProduct_loop a b 0 = dotProduct_loop b a 0"
  by (simp add: dotProduct_loop_sum Int_commute mult.commute)

lemma dotProduct_commute:
  "wf_map vec1 \<Longrightarrow> wf_map vec2 \<Longrightarrow> dotProduct vec1 vec2 = dotProduct vec2 vec1"
proof -
  assume "wf_map vec1" "wf_map vec2"
  then have "dotProduct_loop vec1 vec2 0 = dotProduct_loop vec2 vec1 0"
    by (intro dotProduct_loop_commute wf_map_distinct)
  then show ?thesis
    by (simp add: dotProduct_def Let_def)
qed


section \<open>Symmetry of cosineSimilarity\<close>

text \<open>
  Claim C6. cosineSimilarity(i, j) equals cosineSimilarity(j, i) for every pair of indices,
  valid or not. The stored vectors are maps (each key once, \<^const>\<open>wf_map\<close>); when the two
  maps have the same size dotProduct iterates the second argument, so the two calls iterate
  different maps and still return the same sum.
\<close>

theorem cosineSimilarity_symmetric:
  assumes "\<forall>v\<in>set (tfidfVectors c). wf_map v"
  shows "cosineSimilarity c i j = cosineSimilarity c j i"
proof (cases "0 \<le> i \<and> i < int (length (tfidfVectors c)) \<and>
              0 \<le> j \<and> j < int (length (tfidfVectors c)) \<and> i \<noteq> j")
  case True
  then have "tfidfVectors c ! nat i \<in> set (tfidfVectors c)"
    and "tfidfVectors c ! nat j \<in> set (tfidfVectors c)"
    by auto
  with assms have "dotProduct (tfidfVectors c ! nat i) (tfidfVectors c ! nat j) =
                   dotProduct (tfidfVectors c ! nat j) (tfidfVectors c ! nat i)"
    by (intro dotProduct_commute) simp_all
  then show ?thesis
    by (simp add: cosineSimilarity_def Let_def mult.commute disj_commute)
next
  case False
  then show ?thesis
    by (auto simp: cosineSimilarity_def)
qed

theorem cosineSimilarity_symmetric_witness:
  "wf_map [(''a'', 1 :: real), (''b'', 2)] \<and> wf_map [(''b'', 3 :: real), (''c'', 4)]
   \<and> cosineSimilarity \<lparr>tfidfVectors = [[(''a'', 1), (''b'', 2)], [(''b'', 3), (''c'', 4)]],
                        documentNames = []\<rparr> 0 1
     = cosineSimilarity \<lparr>tfidfVectors = [[(''a'', 1), (''b'', 2)], [(''b'', 3), (''c'', 4)]],
                          documentNames = []\<rparr> 1 0"
proof -
  let ?c = "\<lparr>tfidfVectors = [[(''a'', 1), (''b'', 2)], [(''b'', 3), (''c'', 4)]],
             documentNames = []\<rparr>"
  have wf1: "wf_map [(''a'', 1 :: real), (''b'', 2)]"
    and wf2: "wf_map [(''b'', 3 :: real), (''c'', 4)]"
    by (simp_all add: wf_map_def less_char_def)
  then have wf: "\<forall>v\<in>set (tfidfVectors ?c). wf_map v"
    by simp
  from wf1 wf2 cosineSimilarity_symmetric [OF wf, of 0 1] show ?thesis by blast
qed

section \<open>FeatureExtractor: the vectors that computeTFIDF stores\<close>

subsection \<open>std::map and std::set insertion\<close>

lemma map_of_map_put: "map_of (map_put k v m) = (map_of m)(k \<mapsto> v)"
  by (induction k v m rule: map_put.induct) (auto simp: fun_upd_twist)

lemma keys_map_put: "set (map fst (map_put k v m)) = insert k (set (map fst m))"
  by (induction k v m rule: map_put.induct) auto

lemma wf_map_put: "wf_map m \<Longrightarrow> wf_map (map_put k v m)"
  unfolding wf_map_def
proof (induction k v m rule: map_put.induct)
  case (1 k v)
  show ?case by simp
next
  case (2 k v k' v' m)
  show ?case
  proof (cases "k = k' \<or> k < k'")
    case True
    with "2.prems" show ?thesis by auto
  next
    case False
    then have gt: "k' < k" and ne: "k \<noteq> k'" and nlt: "\<not> k < k'" by auto
    from "2.prems" have tail: "sorted_wrt (<) (map fst m)" by simp
    have "sorted_wrt (<) (map fst (map_put k v m))"
      using "2.IH" ne gt tail by auto
    moreover have "\<forall>y\<in>set (map fst (map_put k v m)). k' < y"
      using "2.prems" gt by (auto simp: keys_map_put simp del: set_map)
    ultimately show ?thesis using ne nlt by simp
  qed
qed

lemma map_put_append:
  "\<forall>k'\<in>set (map fst m). k' < k \<Longrightarrow> map_put k v m = m @ [(k, v)]"
  by (induction m) auto

lemma set_set_insert: "set (set_insert w xs) = insert w (set xs)"
  by (induction w xs rule: set_insert.induct) auto

lemma sorted_set_insert: "sorted_wrt (<) xs \<Longrightarrow> sorted_wrt (<) (set_insert w xs)"
proof (induction w xs rule: set_insert.induct)
  case (1 w)
  show ?case by simp
next
  case (2 w x xs)
  show ?case
  proof (cases "w = x \<or> w < x")
    case True
    with "2.prems" show ?thesis by auto
  next
    case False
    then have gt: "x < w" and ne: "w \<noteq> x" and nlt: "\<not> w < x" by auto
    from "2.prems" have tail: "sorted_wrt (<) xs" by simp
    have "sorted_wrt (<) (set_insert w xs)"
      using "2.IH" ne gt tail by auto
    moreover have "\<forall>y\<in>set (set_insert w xs). x < y"
      using "2.prems" gt by (auto simp: set_set_insert)
    ultimately show ?thesis using ne nlt by simp
  qed
qed

subsection \<open>buildVocabulary\<close>

lemma set_buildVocabulary_words:
  "set (buildVocabulary_words doc vocabSet) = set doc \<union> set vocabSet"
  by (induction doc arbitrary: vocabSet) (auto simp: set_set_insert)

lemma sorted_buildVocabulary_words:
  "sorted_wrt (<) vocabSet \<Longrightarrow> sorted_wrt (<) (buildVocabulary_words doc vocabSet)"
  by (induction doc arbitrary: vocabSet) (auto simp: sorted_set_insert)

lemma set_buildVocabulary_docs:
  "set (buildVocabulary_docs docs vocabSet) = (\<Union>doc\<in>set docs. set doc) \<union> set vocabSet"
  by (induction docs arbitrary: vocabSet) (auto simp: set_buildVocabulary_words)

lemma sorted_buildVocabulary_docs:
  "sorted_wrt (<) vocabSet \<Longrightarrow> sorted_wrt (<) (buildVocabulary_docs docs vocabSet)"
  by (induction docs arbitrary: vocabSet) (auto simp: sorted_buildVocabulary_words)

lemma documents_new [simp]: "documents (FeatureExtractor_new docs) = docs"
  by (simp add: FeatureExtractor_new_def buildVocabulary_def)

lemma set_vocabulary_new:
  "set (vocabulary (FeatureExtractor_new docs)) = (\<Union>doc\<in>set docs. set doc)"
  by (simp add: FeatureExtractor_new_def buildVocabulary_def set_buildVocabulary_docs)

lemma sorted_vocabulary_new: "sorted_wrt (<) (vocabulary (FeatureExtractor_new docs))"
  by (simp add: FeatureExtractor_new_def buildVocabulary_def sorted_buildVocabulary_docs)

subsection \<open>computeTF\<close>

lemma map_of_count_terms:
  "map_of (count_terms doc m) t =
     (if t \<in> set doc \<or> map_of m t \<noteq> None
      then Some ((case map_of m t of None \<Rightarrow> 0 | Some n \<Rightarrow> n) + int (count_list doc t))
      else None)"
  by (induction doc arbitrary: m) (auto simp: map_of_map_put map_find_def split: option.splits)

lemma wf_count_terms: "wf_map m \<Longrightarrow> wf_map (count_terms doc m)"
  by (induction doc arbitrary: m) (auto simp: wf_map_put)

lemma map_of_tf_of_counts:
  "distinct (map fst cs) \<Longrightarrow>
   map_of (tf_of_counts cs n tf) t =
     (case map_of cs t of Some c \<Rightarrow> Some (real_of_int c / n) | None \<Rightarrow> map_of tf t)"
proof (induction cs n tf rule: tf_of_counts.induct)
  case (1 n tf)
  show ?case by simp
next
  case (2 k c rest n tf)
  then have "map_of rest k = None"
    by (simp add: map_of_eq_None_iff)
  with 2 show ?case
    by (auto simp: map_of_map_put split: option.splits)
qed

lemma wf_empty [simp]: "wf_map []"
  by (simp add: wf_map_def)

lemma tfValue_computeTF:
  "(case map_find (computeTF doc) t of Some v \<Rightarrow> v | None \<Rightarrow> 0) = tf_spec doc t"
proof (cases "doc = []")
  case True
  then show ?thesis by (simp add: computeTF_def map_find_def tf_spec_def)
next
  case False
  have "distinct (map fst (count_terms doc []))"
    using wf_count_terms [of "[]" doc] by (simp add: wf_map_def strict_sorted_iff)
  then show ?thesis
    using False
    by (simp add: computeTF_def map_find_def tf_spec_def map_of_tf_of_counts
        map_of_count_terms count_list_0_iff)
qed

subsection \<open>computeIDF\<close>

lemma count_docs_eq: "count_docs t docs n = n + int (docCount_spec docs t)"
  by (induction docs arbitrary: n) (simp_all add: docCount_spec_def)

lemma map_of_computeIDF_loop:
  "map_of (computeIDF_loop vocab docs (real (length docs)) idf) t =
     (if t \<in> set vocab then Some (idf_spec docs t) else map_of idf t)"
  by (induction vocab arbitrary: idf)
     (auto simp: map_of_map_put count_docs_eq idf_spec_def Let_def)

lemma map_of_computeIDF:
  "documents fe \<noteq> [] \<Longrightarrow>
   map_of (computeIDF fe) t =
     (if t \<in> set (vocabulary fe) then Some (idf_spec (documents fe) t) else None)"
  by (simp add: computeIDF_def map_of_computeIDF_loop)

subsection \<open>computeTFIDF\<close>

lemma tfidf_terms_eq:
  assumes "sorted_wrt (<) (map fst acc @ vocab)"
    and "\<forall>t\<in>set vocab. map_of idf t = Some (idfv t)"
  shows "tfidf_terms vocab (computeTF doc) idf acc =
           Inr (acc @ map (\<lambda>t. (t, tf_spec doc t * idfv t)) vocab)"
  using assms
proof (induction vocab arbitrary: acc)
  case Nil
  show ?case by simp
next
  case (Cons t vocab)
  from Cons.prems(1) have below: "\<forall>k'\<in>set (map fst acc). k' < t"
    by (auto simp: sorted_wrt_append)
  have sorted': "sorted_wrt (<) (map fst (acc @ [(t, tf_spec doc t * idfv t)]) @ vocab)"
    using Cons.prems(1) by simp
  have idf': "\<forall>t\<in>set vocab. map_of idf t = Some (idfv t)"
    using Cons.prems(2) by simp
  have at: "map_at idf t = Inr (idfv t)"
    using Cons.prems(2) by (simp add: map_at_def)
  show ?case
    using Cons.IH [OF sorted' idf'] at
    by (simp add: tfValue_computeTF map_put_append [OF below])
qed

lemma computeTFIDF_docs_eq:
  assumes "sorted_wrt (<) vocab"
    and "\<forall>t\<in>set vocab. map_of idf t = Some (idfv t)"
  shows "computeTFIDF_docs ds vocab idf acc =
           Inr (acc @ map (\<lambda>doc. map (\<lambda>t. (t, tf_spec doc t * idfv t)) vocab) ds)"
proof (induction ds arbitrary: acc)
  case Nil
  show ?case by simp
next
  case (Cons doc ds)
  have "tfidf_terms vocab (computeTF doc) idf [] =
          Inr (map (\<lambda>t. (t, tf_spec doc t * idfv t)) vocab)"
    using tfidf_terms_eq [of "[]" vocab idf idfv doc] assms by simp
  then show ?case
    by (simp add: Cons.IH)
qed

lemma computeTFIDF_new:
  "computeTFIDF (FeatureExtractor_new docs) =
     Inr ((FeatureExtractor_new docs)\<lparr>fe_tfidfVectors := map (tfidf_spec docs) docs\<rparr>)"
proof (cases "docs = []")
  case True
  then show ?thesis by (simp add: computeTFIDF_def)
next
  case False
  let ?fe = "FeatureExtractor_new docs"
  have idf: "\<forall>t\<in>set (vocabulary ?fe). map_of (computeIDF ?fe) t = Some (idf_spec docs t)"
    using False by (simp add: map_of_computeIDF)
  have "computeTFIDF_docs docs (vocabulary ?fe) (computeIDF ?fe) [] =
          Inr (map (tfidf_spec docs) docs)"
    using computeTFIDF_docs_eq [OF sorted_vocabulary_new idf, of docs "[]"]
    by (simp add: tfidf_spec_def [abs_def])
  with False show ?thesis
    by (simp add: computeTFIDF_def)
qed

lemma engine_eq:
  "engine docs names = Inr \<lparr>tfidfVectors = map (tfidf_spec docs) docs, documentNames = names\<rparr>"
  by (simp add: engine_def computeTFIDF_new getAllTFIDFVectors_def)

lemma keys_tfidf_spec: "map fst (tfidf_spec docs doc) = vocabulary (FeatureExtractor_new docs)"
  by (simp add: tfidf_spec_def comp_def)

lemma map_of_tfidf_spec:
  "map_of (tfidf_spec docs doc) t =
     (if t \<in> set (vocabulary (FeatureExtractor_new docs))
      then Some (tf_spec doc t * idf_spec docs t) else None)"
  by (simp add: tfidf_spec_def map_of_map_restrict restrict_map_def comp_def)


lemma docCount_pos_new:
  "t \<in> set (vocabulary (FeatureExtractor_new docs)) \<Longrightarrow> 0 < docCount_spec docs t"
  by (auto simp: set_vocabulary_new docCount_spec_def filter_empty_conv)

lemma magnitude_zero: "\<forall>e\<in>set v. snd e = 0 \<Longrightarrow> magnitude v = 0"
proof -
  assume zero: "\<forall>e\<in>set v. snd e = 0"
  have "sum_list (map (\<lambda>(k, x). x * x) v) = 0"
    using zero by (induction v) auto
  then show ?thesis
    by (simp add: magnitude_def magnitude_loop_sum_list)
qed

lemma tfidf_spec_empty: "\<forall>e\<in>set (tfidf_spec docs []). snd e = 0"
  by (auto simp: tfidf_spec_def tf_spec_def)

lemma cosineSimilarity_zero_magnitude:
  "magnitude (tfidfVectors c ! nat i) = 0 \<Longrightarrow> i \<noteq> j \<Longrightarrow> cosineSimilarity c i j = 0"
  by (simp add: cosineSimilarity_def Let_def)







section \<open>Inverse document frequency\<close>

text \<open>
  Claim C8. For a non-empty corpus, computeIDF stores for every term of the vocabulary the
  decimal logarithm of the number of documents over docCount, where docCount is the number
  of documents that contain the term at least once; for a term that no document contains
  it stores 0. The extractor is any state of the class, so that a vocabulary term without
  a document is covered.
\<close>

theorem computeIDF_formula:
  assumes "documents fe \<noteq> []" and "t \<in> set (vocabulary fe)"
  shows "map_find (computeIDF fe) t =
           Some (if docCount_spec (documents fe) t = 0 then 0
                 else log 10 (real (length (documents fe)) / real (docCount_spec (documents fe) t)))"
  using assms by (simp add: map_find_def map_of_computeIDF idf_spec_def)

theorem computeIDF_formula_witness:
  "map_find (computeIDF \<lparr>documents = [[''a'', ''a''], [''a'', ''b'']], vocabulary = [''a'', ''b'', ''z''],
                         fe_tfidfVectors = []\<rparr>) ''b'' = Some (log 10 2)
   \<and> map_find (computeIDF \<lparr>documents = [[''a'', ''a''], [''a'', ''b'']], vocabulary = [''a'', ''b'', ''z''],
                         fe_tfidfVectors = []\<rparr>) ''z'' = Some 0"
  using computeIDF_formula [of "\<lparr>documents = [[''a'', ''a''], [''a'', ''b'']],
            vocabulary = [''a'', ''b'', ''z''], fe_tfidfVectors = []\<rparr>" "''b''"]
        computeIDF_formula [of "\<lparr>documents = [[''a'', ''a''], [''a'', ''b'']],
            vocabulary = [''a'', ''b'', ''z''], fe_tfidfVectors = []\<rparr>" "''z''"]
  by (simp add: docCount_spec_def)

section \<open>Key sets of the stored vectors\<close>

text \<open>
  Claim C10. computeTFIDF returns without an exception and stores one vector per document.
  The keys of every vector are the terms of the vocabulary, which are the tokens of all
  documents, and a vocabulary term that the document does not contain has an entry of
  weight 0.
\<close>

theorem computeTFIDF_keys:
  "\<exists>fe'. computeTFIDF (FeatureExtractor_new docs) = Inr fe'
     \<and> vocabulary fe' = vocabulary (FeatureExtractor_new docs)
     \<and> set (vocabulary fe') = (\<Union>doc\<in>set docs. set doc)
     \<and> length (fe_tfidfVectors fe') = length docs
     \<and> (\<forall>v\<in>set (fe_tfidfVectors fe'). map fst v = vocabulary fe')
     \<and> (\<forall>i<length docs. \<forall>t\<in>set (vocabulary fe'). t \<notin> set (docs ! i) \<longrightarrow>
            map_find (fe_tfidfVectors fe' ! i) t = Some 0)"
proof -
  let ?fe = "(FeatureExtractor_new docs)\<lparr>fe_tfidfVectors := map (tfidf_spec docs) docs\<rparr>"
  have "map_find (fe_tfidfVectors ?fe ! i) t = Some 0"
    if "i < length docs" "t \<in> set (vocabulary ?fe)" "t \<notin> set (docs ! i)" for i t
    using that by (simp add: map_find_def map_of_tfidf_spec tf_spec_def count_list_0_iff)
  moreover have "\<forall>v\<in>set (fe_tfidfVectors ?fe). map fst v = vocabulary ?fe"
    by (auto simp: keys_tfidf_spec)
  ultimately show ?thesis
    using computeTFIDF_new [of docs] set_vocabulary_new [of docs] by auto
qed

theorem computeTFIDF_keys_witness:
  "map fst (fe_tfidfVectors (projr (computeTFIDF (FeatureExtractor_new [[''b'', ''a''], [''c'']]))) ! 1)
     = [''a'', ''b'', ''c'']
   \<and> map_find (fe_tfidfVectors (projr (computeTFIDF (FeatureExtractor_new [[''b'', ''a''], [''c'']]))) ! 1)
        ''a'' = Some 0"
proof -
  let ?docs = "[[''b'', ''a''], [''c'']]"
  have voc: "vocabulary (FeatureExtractor_new ?docs) = [''a'', ''b'', ''c'']"
    by (simp add: FeatureExtractor_new_def buildVocabulary_def less_char_def)
  obtain fe' where run: "computeTFIDF (FeatureExtractor_new ?docs) = Inr fe'"
    and v: "vocabulary fe' = vocabulary (FeatureExtractor_new ?docs)"
    and len: "length (fe_tfidfVectors fe') = length ?docs"
    and keys: "\<forall>v\<in>set (fe_tfidfVectors fe'). map fst v = vocabulary fe'"
    and zero: "\<forall>i<length ?docs. \<forall>t\<in>set (vocabulary fe'). t \<notin> set (?docs ! i) \<longrightarrow>
                 map_find (fe_tfidfVectors fe' ! i) t = Some 0"
    using computeTFIDF_keys [of ?docs] by blast
  from len have "fe_tfidfVectors fe' ! 1 \<in> set (fe_tfidfVectors fe')"
    by (intro nth_mem) simp
  with keys v voc have k: "map fst (fe_tfidfVectors fe' ! 1) = [''a'', ''b'', ''c'']"
    by simp
  have "map_find (fe_tfidfVectors fe' ! 1) ''a'' = Some 0"
    using zero [rule_format, of 1 "''a''"] v voc by simp
  with k run show ?thesis by simp
qed

section \<open>Documents without tokens\<close>

text \<open>
  Claim C4. computeTF of a document without tokens is the empty map, and in the engine
  built from the corpus the cosine similarity of that document and any other index j is 0.
\<close>

theorem empty_document_similarity:
  assumes "i < length docs" and "docs ! i = []" and "j \<noteq> int i"
  shows "computeTF (docs ! i) = []
         \<and> (\<exists>c. engine docs names = Inr c \<and> cosineSimilarity c (int i) j = 0)"
proof -
  let ?c = "\<lparr>tfidfVectors = map (tfidf_spec docs) docs, documentNames = names\<rparr>"
  have "tfidfVectors ?c ! nat (int i) = tfidf_spec docs []"
    using assms(1,2) by simp
  moreover have "magnitude (tfidf_spec docs []) = 0"
    by (rule magnitude_zero) (rule tfidf_spec_empty)
  ultimately have "magnitude (tfidfVectors ?c ! nat (int i)) = 0"
    by (simp only:)
  then have "cosineSimilarity ?c (int i) j = 0"
    using assms(3) by (intro cosineSimilarity_zero_magnitude) simp_all
  then show ?thesis
    using assms(2) by (simp add: engine_eq computeTF_def)
qed

theorem empty_document_similarity_witness:
  "computeTF ([[], [''a''], [''b'']] ! 0) = []
   \<and> cosineSimilarity (projr (engine [[], [''a''], [''b'']] [])) (int 0) 1 = 0"
proof -
  obtain c where "engine [[], [''a''], [''b'']] [] = Inr c"
    and "cosineSimilarity c (int 0) 1 = 0" and "computeTF ([[], [''a''], [''b'']] ! 0) = []"
    using empty_document_similarity [of 0 "[[], [''a''], [''b'']]" 1 "[]"] by auto
  then show ?thesis by simp
qed

section \<open>Documents with the same tokens\<close>





section \<open>ReportWriter: the rows of the report\<close>

lemma is_digit_digit_char: "d < 10 \<Longrightarrow> is_digit (digit_char d)"
  by (simp add: is_digit_def digit_char_def less_eq_char_def)

lemma digits_of_not_Nil: "digits_of n \<noteq> []"
  by (subst digits_of.simps) simp

lemma digits_of_digits: "list_all is_digit (digits_of n)"
proof (induction n rule: digits_of.induct)
  case (1 n)
  show ?case
  proof (cases "n < 10")
    case True
    then show ?thesis
      by (subst digits_of.simps) (simp add: is_digit_digit_char)
  next
    case False
    with 1 show ?thesis
      by (subst digits_of.simps) (simp add: is_digit_digit_char)
  qed
qed

lemma minus_not_digit: "\<not> is_digit CHR ''-''"
  by (simp add: is_digit_def less_eq_char_def)

lemma two_decimal_places_finite: "two_decimal_places (fixed2 (Finite x))"
proof -
  define h where "h = nat (round_half_even (\<bar>x\<bar> * 100))"
  obtain ch cs where ds: "digits_of (h div 100) = ch # cs"
    using digits_of_not_Nil [of "h div 100"] by (cases "digits_of (h div 100)") auto
  have all: "list_all is_digit (ch # cs)"
    using digits_of_digits [of "h div 100"] ds by simp
  then have "ch \<noteq> CHR ''-''"
    using minus_not_digit by auto
  with all ds show ?thesis
    by (simp add: two_decimal_places_def Let_def h_def [symmetric] is_digit_digit_char)
qed

lemma two_decimal_places_fixed2: "two_decimal_places (fixed2 d) = is_finite d"
proof (cases d)
  case (Finite x)
  then show ?thesis by (simp only: two_decimal_places_finite is_finite.simps)
next
  case NegZero
  then show ?thesis
    by (simp add: two_decimal_places_def is_digit_def less_eq_char_def)
next
  case PosInf
  then show ?thesis
    by (simp add: two_decimal_places_def is_digit_def less_eq_char_def)
next
  case NegInf
  then show ?thesis
    by (simp add: two_decimal_places_def is_digit_def less_eq_char_def)
next
  case (NaN s)
  then show ?thesis
    by (simp add: two_decimal_places_def is_digit_def less_eq_char_def)
qed

lemma writeCSV_rows_eq:
  "writeCSV_rows thresh results out =
     out @ concat (map (\<lambda>(a, b, s). csv_row a b (fixed2 (double_mul s (Finite 100)))
                                    (if double_greater s thresh then ''Yes'' else ''No'')) results)"
proof (induction results arbitrary: out)
  case Nil
  show ?case by simp
next
  case (Cons r rest)
  obtain a b s where r: "r = (a, b, s)" by (cases r)
  show ?case
    unfolding r by (simp add: Cons.IH csv_row_def)
qed

lemma round_half_even_error: "\<bar>real_of_int (round_half_even z) - z\<bar> \<le> 1 / 2"
proof -
  have "real_of_int \<lfloor>z\<rfloor> \<le> z" and "z < real_of_int \<lfloor>z\<rfloor> + 1"
    by linarith+
  then show ?thesis
    by (auto simp: round_half_even_def Let_def)
qed

lemma double_ulp_pos: "0 < double_ulp x"
  by (simp add: double_ulp_def)

lemma round_double_small:
  assumes "x \<noteq> 0" and "\<bar>x\<bar> \<le> 100"
  shows "is_finite (round_double x)"
proof -
  let ?u = "double_ulp x"
  let ?y = "real_of_int (round_half_even (x / ?u)) * ?u"
  have pos: "0 < \<bar>x\<bar>" using assms(1) by simp
  have "log 2 \<bar>x\<bar> \<le> log 2 128"
    using pos assms(2) by (subst log_le_cancel_iff) simp_all
  also have "log 2 128 = 7"
    using log_pow_cancel [of 2 7] by simp
  finally have "\<lfloor>log 2 \<bar>x\<bar>\<rfloor> \<le> 7"
    by (simp add: floor_le_iff)
  then have "real_of_int (max \<lfloor>log 2 \<bar>x\<bar>\<rfloor> (- 1022)) - 52 \<le> 0"
    by simp
  then have "?u \<le> 2 powr 0"
    unfolding double_ulp_def by (intro powr_mono) simp_all
  then have u1: "?u \<le> 1" by simp
  have "?y - x = (real_of_int (round_half_even (x / ?u)) - x / ?u) * ?u"
    using double_ulp_pos [of x] by (simp add: left_diff_distrib)
  then have "\<bar>?y - x\<bar> = \<bar>real_of_int (round_half_even (x / ?u)) - x / ?u\<bar> * \<bar>?u\<bar>"
    by (simp only: abs_mult)
  also have "\<dots> = \<bar>real_of_int (round_half_even (x / ?u)) - x / ?u\<bar> * ?u"
    using double_ulp_pos [of x] by simp
  also have "\<dots> \<le> 1 / 2 * ?u"
    using double_ulp_pos [of x] round_half_even_error [of "x / ?u"]
    by (intro mult_right_mono) simp_all
  finally have "\<bar>?y\<bar> \<le> \<bar>x\<bar> + 1" using u1 by linarith
  with assms(2) have "\<bar>?y\<bar> \<le> 101" by linarith
  moreover have "(101 :: real) < 2 powr 1024"
  proof -
    have "(101 :: real) < 2 powr 7" by simp
    also have "(2 :: real) powr 7 \<le> 2 powr 1024" by (intro powr_mono) simp_all
    finally show ?thesis .
  qed
  ultimately have "\<not> 2 powr 1024 \<le> \<bar>?y\<bar>" by linarith
  then show ?thesis
    by (simp add: round_double_def Let_def)
qed

lemma finite_percentage: "\<bar>x\<bar> \<le> 1 \<Longrightarrow> is_finite (double_mul (Finite x) (Finite 100))"
  by (simp add: round_double_small Let_def)


lemma round_half_even_eval:
  assumes "real_of_int n - 1 / 2 < z" and "z < real_of_int n + 1 / 2"
  shows "round_half_even z = n"
proof (cases "real_of_int n \<le> z")
  case True
  with assms have "\<lfloor>z\<rfloor> = n" by (intro floor_unique) simp_all
  with assms show ?thesis by (simp add: round_half_even_def Let_def)
next
  case False
  with assms have "\<lfloor>z\<rfloor> = n - 1" by (intro floor_unique) simp_all
  with assms False show ?thesis by (simp add: round_half_even_def Let_def)
qed

lemma round_double_eval:
  assumes "0 < x"
    and "2 powr (real_of_int e) \<le> x" and "x < 2 powr (real_of_int (e + 1))"
    and "- 1022 \<le> e"
    and "u = 2 powr (real_of_int e - 52)"
    and "round_half_even (x / u) = n"
    and "\<bar>real_of_int n * u\<bar> < 2 powr 1024"
  shows "round_double x = Finite (real_of_int n * u)"
proof -
  have "\<lfloor>log 2 \<bar>x\<bar>\<rfloor> = e"
    using assms(1-3) by (subst floor_log_eq_powr_iff) simp_all
  then have "double_ulp x = u"
    using assms(4,5) by (simp add: double_ulp_def max_def)
  then show ?thesis
    using assms(1,6,7) by (simp add: round_double_def Let_def)
qed

lemma percentage_three_quarters: "double_mul (Finite (3 / 4)) (Finite 100) = Finite 75"
proof -
  have "round_double 75 = Finite (real_of_int 5277655813324800 * (1 / 2 ^ 46))"
  proof (rule round_double_eval [where e = 6])
    show "round_half_even (75 / (1 / 2 ^ 46)) = 5277655813324800"
      by (rule round_half_even_eval) simp_all
    show "(1 :: real) / 2 ^ 46 = 2 powr (real_of_int 6 - 52)"
      by (simp add: powr_neg_numeral)
    show "\<bar>real_of_int 5277655813324800 * (1 / 2 ^ 46)\<bar> < 2 powr 1024"
    proof -
      have "\<bar>real_of_int 5277655813324800 * (1 / 2 ^ 46)\<bar> < 2 powr 7" by simp
      also have "(2 :: real) powr 7 \<le> 2 powr 1024" by (intro powr_mono) simp_all
      finally show ?thesis .
    qed
  qed simp_all
  then show ?thesis by simp
qed


lemma percentage_one: "double_mul (Finite 1) (Finite 100) = Finite 100"
proof -
  have "round_double 100 = Finite (real_of_int 7036874417766400 * (1 / 2 ^ 46))"
  proof (rule round_double_eval [where e = 6])
    show "round_half_even (100 / (1 / 2 ^ 46)) = 7036874417766400"
      by (rule round_half_even_eval) simp_all
    show "(1 :: real) / 2 ^ 46 = 2 powr (real_of_int 6 - 52)"
      by (simp add: powr_neg_numeral)
    show "\<bar>real_of_int 7036874417766400 * (1 / 2 ^ 46)\<bar> < 2 powr 1024"
    proof -
      have "\<bar>real_of_int 7036874417766400 * (1 / 2 ^ 46)\<bar> < 2 powr 7" by simp
      also have "(2 :: real) powr 7 \<le> 2 powr 1024" by (intro powr_mono) simp_all
      finally show ?thesis .
    qed
  qed simp_all
  then show ?thesis by (simp add: Let_def)
qed

text \<open>The double nearest to 0.70035 is 3154095999028927 / 2^52.\<close>

lemma percentage_70035:
  "double_mul (Finite (3154095999028927 / 2 ^ 52)) (Finite 100) =
     Finite (2464137499241349 / 2 ^ 45)"
proof -
  have "round_double (3154095999028927 / 2 ^ 52 * 100) =
          Finite (real_of_int 4928274998482698 * (1 / 2 ^ 46))"
  proof (rule round_double_eval [where e = 6])
    show "round_half_even (3154095999028927 / 2 ^ 52 * 100 / (1 / 2 ^ 46)) = 4928274998482698"
      by (rule round_half_even_eval) simp_all
    show "(1 :: real) / 2 ^ 46 = 2 powr (real_of_int 6 - 52)"
      by (simp add: powr_neg_numeral)
    show "\<bar>real_of_int 4928274998482698 * (1 / 2 ^ 46)\<bar> < 2 powr 1024"
    proof -
      have "\<bar>real_of_int 4928274998482698 * (1 / 2 ^ 46)\<bar> < 2 powr 7" by simp
      also have "(2 :: real) powr 7 \<le> 2 powr 1024" by (intro powr_mono) simp_all
      finally show ?thesis .
    qed
  qed simp_all
  then show ?thesis by (simp add: Let_def)
qed

lemma fixed2_eval:
  assumes "0 \<le> x" and "round_half_even (x * 100) = int h"
  shows "fixed2 (Finite x) =
           digits_of (h div 100) @ ''.'' @ [digit_char (h div 10 mod 10), digit_char (h mod 10)]"
  using assms by (simp add: Let_def)

lemma fixed2_75: "fixed2 (Finite 75) = ''75.00''"
proof -
  have "round_half_even (75 * 100) = int 7500"
    by (rule round_half_even_eval) simp_all
  from fixed2_eval [OF _ this] show ?thesis
    by (simp add: digits_of.simps [of 75] digits_of.simps [of 7] digit_char_def char_of_def
        bit_Suc_0_iff)
qed

lemma fixed2_100: "fixed2 (Finite 100) = ''100.00''"
proof -
  have "round_half_even (100 * 100) = int 10000"
    by (rule round_half_even_eval) simp_all
  from fixed2_eval [OF _ this] show ?thesis
    by (simp add: digits_of.simps [of 100] digits_of.simps [of 10] digits_of.simps [of "Suc 0"]
        digit_char_def char_of_def bit_Suc_0_iff)
qed

lemma fixed2_70035: "fixed2 (Finite (2464137499241349 / 2 ^ 45)) = ''70.03''"
proof -
  have "round_half_even (2464137499241349 / 2 ^ 45 * 100) = int 7003"
    by (rule round_half_even_eval) simp_all
  from fixed2_eval [OF _ this] show ?thesis
    by (simp add: digits_of.simps [of 70] digits_of.simps [of 7] digit_char_def char_of_def
        bit_Suc_0_iff)
qed

text \<open>
  Claim C9, as amended. The file that writeCSV writes starts with the header line and
  continues with one row per result, in the order of the results: the quoted pair of names
  joined by " vs ", the percentage with a percent sign, and the flag, which is Yes exactly
  when the similarity is greater than the threshold (a similarity equal to the threshold,
  and a NaN, give No). The percentage has exactly two decimal places if and only if the
  product of the similarity and 100.0 is a finite double, which it is for every finite
  similarity of magnitude at most 1.
\<close>

theorem writeCSV_format:
  "writeCSV w True results =
     Some (''Student Pair,Similarity Percentage,Plagiarized'' @ [CHR 0x0A] @
           concat (map (\<lambda>(a, b, s). csv_row a b (fixed2 (double_mul s (Finite 100)))
                          (if double_greater s (threshold w) then ''Yes'' else ''No'')) results))
   \<and> list_all (\<lambda>(a, b, s). two_decimal_places (fixed2 (double_mul s (Finite 100))) =
                             is_finite (double_mul s (Finite 100))) results
   \<and> (\<forall>x. \<bar>x\<bar> \<le> 1 \<longrightarrow> two_decimal_places (fixed2 (double_mul (Finite x) (Finite 100))))"
proof -
  have "writeCSV w True results =
     Some (''Student Pair,Similarity Percentage,Plagiarized'' @ [CHR 0x0A] @
           concat (map (\<lambda>(a, b, s). csv_row a b (fixed2 (double_mul s (Finite 100)))
                          (if double_greater s (threshold w) then ''Yes'' else ''No'')) results))"
    unfolding writeCSV_def writeCSV_rows_eq by simp
  moreover have "list_all (\<lambda>(a, b, s). two_decimal_places (fixed2 (double_mul s (Finite 100))) =
                             is_finite (double_mul s (Finite 100))) results"
    by (simp add: list_all_iff two_decimal_places_fixed2 split_beta)
  moreover have "two_decimal_places (fixed2 (double_mul (Finite x) (Finite 100)))"
    if "\<bar>x\<bar> \<le> 1" for x
    using finite_percentage [OF that] by (simp only: two_decimal_places_fixed2)
  ultimately show ?thesis by blast
qed

text \<open>
  Three rows with the threshold 0.75: a similarity equal to the threshold, the double
  nearest to 0.70035, whose product with 100.0 rounds to a double below 70.035, and 1.
\<close>

theorem writeCSV_format_witness:
  "writeCSV \<lparr>outputPath = ''report.csv'', threshold = Finite (3 / 4)\<rparr> True
     [(''a.txt'', ''b.txt'', Finite (3 / 4)),
      (''a.txt'', ''c.txt'', Finite (3154095999028927 / 2 ^ 52)),
      (''b.txt'', ''c.txt'', Finite 1)] =
   Some (''Student Pair,Similarity Percentage,Plagiarized'' @ [CHR 0x0A] @
         [CHR 0x22] @ ''a.txt vs b.txt'' @ [CHR 0x22] @ '',75.00%,No'' @ [CHR 0x0A] @
         [CHR 0x22] @ ''a.txt vs c.txt'' @ [CHR 0x22] @ '',70.03%,No'' @ [CHR 0x0A] @
         [CHR 0x22] @ ''b.txt vs c.txt'' @ [CHR 0x22] @ '',100.00%,Yes'' @ [CHR 0x0A])"
proof -
  have less: "(3154095999028927 / 2 ^ 52 :: real) < 3 / 4"
    by simp
  have "writeCSV \<lparr>outputPath = ''report.csv'', threshold = Finite (3 / 4)\<rparr> True
          [(''a.txt'', ''b.txt'', Finite (3 / 4)),
           (''a.txt'', ''c.txt'', Finite (3154095999028927 / 2 ^ 52)),
           (''b.txt'', ''c.txt'', Finite 1)] =
        Some (''Student Pair,Similarity Percentage,Plagiarized'' @ [CHR 0x0A] @
              csv_row ''a.txt'' ''b.txt'' (fixed2 (double_mul (Finite (3 / 4)) (Finite 100))) ''No'' @
              csv_row ''a.txt'' ''c.txt''
                (fixed2 (double_mul (Finite (3154095999028927 / 2 ^ 52)) (Finite 100))) ''No'' @
              csv_row ''b.txt'' ''c.txt'' (fixed2 (double_mul (Finite 1) (Finite 100))) ''Yes'')"
    using writeCSV_format [of "\<lparr>outputPath = ''report.csv'', threshold = Finite (3 / 4)\<rparr>"
        "[(''a.txt'', ''b.txt'', Finite (3 / 4)),
          (''a.txt'', ''c.txt'', Finite (3154095999028927 / 2 ^ 52)),
          (''b.txt'', ''c.txt'', Finite 1)]"] less
    by (simp del: double_mul.simps fixed2.simps)
  then show ?thesis
    unfolding percentage_three_quarters percentage_70035 percentage_one
      fixed2_75 fixed2_70035 fixed2_100 csv_row_def
    by simp
qed

text \<open>
  The claim as stated fails for a similarity that is NaN: the row has the percentage
  nan, which has no decimal places.
\<close>

theorem writeCSV_format_counterexample:
  "writeCSV \<lparr>outputPath = ''report.csv'', threshold = Finite (7 / 10)\<rparr> True
     [(''a.txt'', ''b.txt'', NaN False)] =
   Some (''Student Pair,Similarity Percentage,Plagiarized'' @ [CHR 0x0A] @
         [CHR 0x22] @ ''a.txt vs b.txt'' @ [CHR 0x22] @ '',nan%,No'' @ [CHR 0x0A])
   \<and> \<not> two_decimal_places ''nan''"
  by (simp add: writeCSV_def two_decimal_places_def is_digit_def less_eq_char_def)

end
